theory Spec2Isabelle
  imports
    Main
    "HOL-Library.AList"
    "HOL-Library.Char_ord"
    "HOL-Library.List_Lexorder"
    "HOL-Library.Multiset"
begin

section \<open>Brain region intron filter: the pipeline of app.py\<close>

text \<open>
  The program reads a genome annotation (GTF), derives the introns of every transcript
  from its exons, keeps the introns that overlap a region of a second annotation, and
  joins them with a list of known introns on (seqname, start, end).

  Python values are modelled as follows. A \<open>str\<close> is a \<open>string\<close>, each \<open>char\<close> standing
  for the code point of the same number (code points below 256). An \<open>int\<close> is an \<open>int\<close>:
  iterating a pandas column yields Python integers, so the arithmetic of the intron loop
  does not wrap. A \<open>dict\<close> is an association list in insertion order, updated with
  \<open>AList.update\<close>, which overwrites a key in place and appends a new one, as a Python
  dict does. An exception is a value of type \<open>error\<close>; a function that may raise returns
  \<open>error + 'a\<close>.
\<close>

datatype error =
    ValueError
  | KeyError string
  | ParserError

subsection \<open>String methods\<close>

text \<open>\<open>str.isspace\<close> for one character: the white space of Unicode below code point 256.\<close>

definition is_space :: "char \<Rightarrow> bool" where
  "is_space c = (c \<in> set [CHR 0x09, CHR 0x0A, CHR 0x0B, CHR 0x0C, CHR 0x0D,
     CHR 0x1C, CHR 0x1D, CHR 0x1E, CHR 0x1F, CHR 0x20, CHR 0x85, CHR 0xA0])"

text \<open>\<open>s.strip(chars)\<close>: the characters satisfying \<open>P\<close> are removed from both ends.\<close>

definition strip_chars :: "(char \<Rightarrow> bool) \<Rightarrow> string \<Rightarrow> string" where
  "strip_chars P s = rev (dropWhile P (rev (dropWhile P s)))"

text \<open>\<open>s.strip()\<close>\<close>

definition strip :: "string \<Rightarrow> string" where
  "strip s = strip_chars is_space s"

text \<open>\<open>s.strip('"')\<close>\<close>

definition strip_quotes :: "string \<Rightarrow> string" where
  "strip_quotes s = strip_chars (\<lambda>c. c = CHR 0x22) s"

text \<open>\<open>s.split(d)\<close> for a one-character separator: never empty, \<open>"".split(d) == [""]\<close>.\<close>

fun split_on :: "char \<Rightarrow> string \<Rightarrow> string list" where
  "split_on d [] = [[]]"
| "split_on d (c # cs) =
     (if c = d then [] # split_on d cs
      else (case split_on d cs of
              [] \<Rightarrow> [[c]]
            | w # ws \<Rightarrow> (c # w) # ws))"

text \<open>
  \<open>s.split(" ", 1)\<close>: one element when \<open>s\<close> has no space, else the text before the first
  space and the text after it.
\<close>

definition split_space1 :: "string \<Rightarrow> string list" where
  "split_space1 s =
     (if CHR 0x20 \<in> set s
      then [takeWhile (\<lambda>c. c \<noteq> CHR 0x20) s, tl (dropWhile (\<lambda>c. c \<noteq> CHR 0x20) s)]
      else [s])"

subsection \<open>parse_attributes\<close>

type_synonym attrs = "(string \<times> string) list"

text \<open>
  The loop of \<open>parse_attributes\<close> over the segments, \<open>attrs\<close> being the dict built so far.
  \<open>key, val = item.strip().split(" ", 1)\<close> raises ValueError unless the split has two
  elements.
\<close>

fun parse_items :: "attrs \<Rightarrow> string list \<Rightarrow> error + attrs" where
  "parse_items attrs [] = Inr attrs"
| "parse_items attrs (item # items) =
     (if strip item \<noteq> [] then
        (case split_space1 (strip item) of
           [key, val] \<Rightarrow> parse_items (AList.update key (strip_quotes val) attrs) items
         | _ \<Rightarrow> Inl ValueError)
      else parse_items attrs items)"

definition parse_attributes :: "string \<Rightarrow> error + attrs" where
  "parse_attributes attr_str = parse_items [] (split_on CHR 0x3B (strip attr_str))"

subsection \<open>Tables\<close>

text \<open>
  A table (a pandas DataFrame) is the list of its rows, a row a record with one field
  per column. The three columns every table of the pipeline has come first; \<open>end'\<close> is
  the column \<open>end\<close>.
\<close>

record locus =
  seqname :: string
  start :: int
  end' :: int

text \<open>A row of \<open>brain_regions\<close>: the columns seqname, source, start, end.\<close>

record region = locus +
  source :: string

text \<open>
  A row of the table \<open>read_gtf\<close> returns for a well-formed annotation: the nine columns of
  \<open>cols\<close>, start and end holding integers and the other columns text.
\<close>

record feature_record = locus +
  source :: string
  feature :: string
  score :: string
  strand :: string
  frame :: string
  attribute :: string

text \<open>
  The table \<open>exons\<close> that \<open>extract_introns\<close> receives and assigns to. The columns
  \<open>attributes\<close> and \<open>transcript_id\<close> are \<open>None\<close> while the table does not have them.
\<close>

record exons_frame =
  rows :: "feature_record list"
  col_attributes :: "attrs list option"
  col_transcript_id :: "string list option"

text \<open>A dict appended to \<open>intron_records\<close>.\<close>

record intron = locus +
  transcript_id :: string
  strand :: string

text \<open>A dict appended to \<open>result\<close> in \<open>introns_in_brain_regions\<close>.\<close>

record matched = intron +
  brain_region_source :: string
  brain_region_start :: int
  brain_region_end :: int

text \<open>
  The table of known introns: the column names of its header line and its rows. The
  fields \<open>seqname\<close>, \<open>start\<close> and \<open>end'\<close> of a row are read only when the header
  has these columns; the other columns of the file are the extension of the record.
\<close>

record 'r known_frame =
  columns :: "string list"
  records :: "'r list"

text \<open>
  \<open>pd.DataFrame(records)\<close> for a list of dicts with the keys \<open>keys\<close> is modelled as the
  list itself. Its columns are the keys of the dicts, so a table built from the empty
  list has no column at all.
\<close>

definition DataFrame_columns :: "string list \<Rightarrow> 'r list \<Rightarrow> string list" where
  "DataFrame_columns keys recs = (if recs = [] then [] else keys)"

subsection \<open>extract_introns\<close>

text \<open>\<open>exons["attribute"].apply(parse_attributes)\<close>: the first raise ends the call.\<close>

fun apply_parse_attributes :: "string list \<Rightarrow> error + attrs list" where
  "apply_parse_attributes [] = Inr []"
| "apply_parse_attributes (a # as) =
     (case parse_attributes a of
        Inl e \<Rightarrow> Inl e
      | Inr d \<Rightarrow>
          (case apply_parse_attributes as of
             Inl e \<Rightarrow> Inl e
           | Inr ds \<Rightarrow> Inr (d # ds)))"

text \<open>\<open>d.get("transcript_id", "unknown")\<close>\<close>

definition get_transcript_id :: "attrs \<Rightarrow> string" where
  "get_transcript_id d =
     (case map_of d ''transcript_id'' of None \<Rightarrow> ''unknown'' | Some v \<Rightarrow> v)"

text \<open>
  \<open>exons.groupby("transcript_id")\<close>, \<open>keys\<close> being the column transcript_id: one group per
  distinct key, the keys in ascending order (pandas sorts the group keys; Python orders
  strings by code point, as the lexicographic order on \<open>string\<close> does), the rows of a
  group in the order of the table.
\<close>

definition groupby :: "string list \<Rightarrow> feature_record list \<Rightarrow> (string \<times> feature_record list) list" where
  "groupby keys rs =
     map (\<lambda>tid. (tid, map snd (filter (\<lambda>kr. fst kr = tid) (zip keys rs))))
       (sort (remdups keys))"

text \<open>
  \<open>group.sort_values("start")\<close> is a function of pandas, not of this repository, and its
  default sorting algorithm is not stable: it returns the rows of the group in ascending
  order of start, and the order it gives to rows of equal start is not documented. The
  functions below take it as the parameter \<open>sort_values\<close>, and the theorems assume of it
  only what \<open>sorts_by_start\<close> says.
\<close>

definition sorts_by_start :: "(feature_record list \<Rightarrow> feature_record list) \<Rightarrow> bool" where
  "sorts_by_start sort_values =
     (\<forall>grp. mset (sort_values grp) = mset grp \<and> sorted (map start (sort_values grp)))"

text \<open>
  The body of the loop over the groups. The index loop reads \<open>coords[i]\<close> and
  \<open>coords[i + 1]\<close> with \<open>i + 1 < len(coords)\<close>, and \<open>group.iloc[0]\<close> only inside the loop,
  where the group has at least two rows.
\<close>

definition group_introns ::
  "(feature_record list \<Rightarrow> feature_record list) \<Rightarrow> string \<Rightarrow> feature_record list \<Rightarrow> intron list" where
  "group_introns sort_values tid grp =
     (let group = sort_values grp;
          coords = zip (map start group) (map end' group)
      in concat (map (\<lambda>i.
           let intron_start = snd (coords ! i) + 1;
               intron_end = fst (coords ! (i + 1)) - 1
           in if intron_end \<ge> intron_start
              then [\<lparr>seqname = seqname (group ! 0),
                     start = intron_start,
                     end' = intron_end,
                     transcript_id = tid,
                     strand = feature_record.strand (group ! 0)\<rparr>]
              else [])
         [0 ..< length coords - 1]))"

text \<open>
  \<open>extract_introns\<close> returns the table of introns and, as it assigns two columns to its
  argument, the argument as it is after the call. A raise of \<open>parse_attributes\<close> happens
  before the first assignment.
\<close>

definition extract_introns ::
  "(feature_record list \<Rightarrow> feature_record list) \<Rightarrow> exons_frame
     \<Rightarrow> error + (exons_frame \<times> intron list)" where
  "extract_introns sort_values exons =
     (case apply_parse_attributes (map attribute (rows exons)) of
        Inl e \<Rightarrow> Inl e
      | Inr attributes \<Rightarrow>
          (let exons1 = exons\<lparr>col_attributes := Some attributes\<rparr>;
               tids = map get_transcript_id attributes;
               exons2 = exons1\<lparr>col_transcript_id := Some tids\<rparr>;
               intron_records =
                 concat (map (\<lambda>(tid, grp). group_introns sort_values tid grp)
                   (groupby tids (rows exons2)))
           in Inr (exons2, intron_records)))"

subsection \<open>overlaps and introns_in_brain_regions\<close>

definition overlaps :: "int \<Rightarrow> int \<Rightarrow> int \<Rightarrow> int \<Rightarrow> bool" where
  "overlaps a_start a_end b_start b_end = (max a_start b_start \<le> min a_end b_end)"

text \<open>The rows of \<open>brain_regions\<close> selected by the mask for one intron.\<close>

definition matching :: "intron \<Rightarrow> region list \<Rightarrow> region list" where
  "matching intron brain_regions =
     filter (\<lambda>row. seqname row = seqname intron \<and>
                   overlaps (start intron) (end' intron) (start row) (end' row))
       brain_regions"

text \<open>\<open>{**intron.to_dict(), "brain_region_source": ..., ...}\<close>\<close>

definition result_row :: "intron \<Rightarrow> region \<Rightarrow> matched" where
  "result_row intron region =
     \<lparr>seqname = seqname intron, start = start intron, end' = end' intron,
      transcript_id = transcript_id intron, strand = intron.strand intron,
      brain_region_source = region.source region,
      brain_region_start = start region,
      brain_region_end = end' region\<rparr>"

text \<open>The two nested loops, each \<open>result.append\<close> adding a row at the end of \<open>result\<close>.\<close>

definition introns_in_brain_regions :: "intron list \<Rightarrow> region list \<Rightarrow> matched list" where
  "introns_in_brain_regions introns brain_regions =
     foldl (\<lambda>result intron.
         foldl (\<lambda>result region. result @ [result_row intron region])
           result (matching intron brain_regions))
       [] introns"

subsection \<open>The reference join and main\<close>

text \<open>The keys of the dicts of \<open>result\<close>, in the order of the dict.\<close>

definition matched_columns :: "string list" where
  "matched_columns = [''transcript_id'', ''seqname'', ''start'', ''end'', ''strand'',
     ''brain_region_source'', ''brain_region_start'', ''brain_region_end'']"

text \<open>
  \<open>pd.merge(left, right, on=keys, how="inner")\<close> looks every key up in both tables, in
  the order of \<open>keys\<close>, and raises KeyError for the first one that a table does not have
  as a column.
\<close>

fun missing_key :: "string list \<Rightarrow> string list \<Rightarrow> string list \<Rightarrow> string option" where
  "missing_key left right [] = None"
| "missing_key left right (k # keys) =
     (if k \<in> set right \<and> k \<in> set left then missing_key left right keys else Some k)"

text \<open>
  The inner join on seqname, start and end: a row of the result is a row of
  \<open>known_introns\<close> with a row of \<open>introns_with_brain\<close> that has the same three values.
  The rows follow the order of the left table, as pandas documents for an inner join.
  The names of the columns of the result are not modelled.
\<close>

definition merge ::
  "'k locus_scheme known_frame \<Rightarrow> matched list \<Rightarrow> error + ('k locus_scheme \<times> matched) list" where
  "merge known_introns introns_with_brain =
     (case missing_key (columns known_introns)
             (DataFrame_columns matched_columns introns_with_brain)
             [''seqname'', ''start'', ''end''] of
        Some k \<Rightarrow> Inl (KeyError k)
      | None \<Rightarrow>
          Inr (concat (map (\<lambda>k. map (Pair k)
                 (filter (\<lambda>m. seqname m = seqname k \<and> start m = start k \<and> end' m = end' k)
                    introns_with_brain))
               (records known_introns))))"

text \<open>\<open>gtf[gtf["feature"] == "exon"]\<close> is a new table with the nine columns of \<open>gtf\<close>.\<close>

definition new_frame :: "feature_record list \<Rightarrow> exons_frame" where
  "new_frame rs = \<lparr>rows = rs, col_attributes = None, col_transcript_id = None\<rparr>"

text \<open>The selection \<open>[["seqname", "source", "start", "end"]]\<close> of one row.\<close>

definition region_of :: "feature_record \<Rightarrow> region" where
  "region_of r =
     \<lparr>seqname = seqname r, start = start r, end' = end' r,
      region.source = feature_record.source r\<rparr>"

text \<open>
  The computation of \<open>main\<close> from the two annotation tables and the table of known
  introns to \<open>filtered\<close> (lines 78 to 100), for annotation tables whose columns have the
  types of \<open>feature_record\<close>, with the sort of pandas as parameter. The widgets of the
  user interface are not modelled.
\<close>

definition main ::
  "(feature_record list \<Rightarrow> feature_record list) \<Rightarrow> feature_record list \<Rightarrow> feature_record list
     \<Rightarrow> 'k locus_scheme known_frame \<Rightarrow> error + ('k locus_scheme \<times> matched) list" where
  "main sort_values gtf brain_gtf known_introns =
     (let exons = new_frame (filter (\<lambda>r. feature r = ''exon'') gtf) in
      case extract_introns sort_values exons of
        Inl e \<Rightarrow> Inl e
      | Inr (exons', introns) \<Rightarrow>
          (let brain_regions = map region_of (filter (\<lambda>r. feature r \<noteq> ''exon'') brain_gtf);
               introns_with_brain = introns_in_brain_regions introns brain_regions
           in merge known_introns introns_with_brain))"

subsection \<open>read_gtf\<close>

definition cols :: "string list" where
  "cols = [''seqname'', ''source'', ''feature'', ''start'', ''end'',
           ''score'', ''strand'', ''frame'', ''attribute'']"

text \<open>
  \<open>pd.read_csv(file, sep="\t", comment="#", names=cols, low_memory=False)\<close> is a function
  of pandas. Two of its stages are not modelled and stay outside \<open>read_gtf\<close>.

  The tokenizer: it cuts a line at the first \<open>#\<close> outside a quoted field, drops the lines
  that are left empty, and splits each other line into its fields at the tabs.
  \<open>read_gtf\<close> takes what the tokenizer yields, the list of the data lines, each the list
  of its fields.

  The conversion of a column: pandas turns the fields of a column into the missing value
  NaN (for an empty field and for the texts it reads as missing, such as \<open>NA\<close>), into
  numbers (when every other field of the column is one) or leaves them text, and it does
  not raise. It is the parameter \<open>convert\<close>, from the fields of a column to its values,
  \<open>None\<close> being NaN; the theorems assume of it only what \<open>converts\<close> says.

  Between the two, as pandas documents: the table is as wide as the first data line, and
  at least as wide as \<open>cols\<close>; a line with more fields raises; a line with fewer fields
  gets empty fields at its end; when the table is wider than \<open>cols\<close>, its first columns
  are the index of the row and the nine last ones are the columns of \<open>cols\<close>. A row of
  the result is the pair of its index values and of its values by column name.
\<close>

definition converts :: "(string list \<Rightarrow> 'v option list) \<Rightarrow> bool" where
  "converts convert =
     (\<forall>column. length (convert column) = length column \<and>
        (\<forall>n < length column. column ! n = [] \<longrightarrow> convert column ! n = None))"

definition read_gtf ::
  "(string list \<Rightarrow> 'v option list) \<Rightarrow> string list list
     \<Rightarrow> error + ('v option list \<times> (string \<times> 'v option) list) list" where
  "read_gtf convert data_lines =
     (let width = (case data_lines of
                     [] \<Rightarrow> length cols
                   | first # _ \<Rightarrow> max (length cols) (length first))
      in if list_ex (\<lambda>fields. width < length fields) data_lines then Inl ParserError
         else
           (let padded = map (\<lambda>fields. fields @ replicate (width - length fields) []) data_lines;
                table_columns = map (\<lambda>j. convert (map (\<lambda>fields. fields ! j) padded)) [0 ..< width];
                leading = width - length cols
            in Inr (map (\<lambda>n. (map (\<lambda>j. table_columns ! j ! n) [0 ..< leading],
                              zip cols (map (\<lambda>j. table_columns ! j ! n) [leading ..< width])))
                      [0 ..< length data_lines])))"

subsection \<open>Notions of the statements\<close>

text \<open>An exon line of an annotation with the given seqname, start, end, strand and attributes.\<close>

definition exon_row :: "string \<Rightarrow> int \<Rightarrow> int \<Rightarrow> string \<Rightarrow> string \<Rightarrow> feature_record" where
  "exon_row sq s e sd attr =
     \<lparr>seqname = sq, start = s, end' = e, source = ''src'', feature = ''exon'',
      score = ''.'', strand = sd, frame = ''.'', attribute = attr\<rparr>"

text \<open>The rows of a table with the transcript id \<open>tid\<close>, in the order of the table.\<close>

definition rows_of :: "string \<Rightarrow> string list \<Rightarrow> feature_record list \<Rightarrow> feature_record list" where
  "rows_of tid keys rs = map snd (filter (\<lambda>kr. fst kr = tid) (zip keys rs))"

text \<open>A segment with a character that is not white space, and without a space.\<close>

definition malformed :: "string \<Rightarrow> bool" where
  "malformed item = ((\<exists>c \<in> set item. \<not> is_space c) \<and> CHR 0x20 \<notin> set item)"

text \<open>The key and the value that \<open>parse_attributes\<close> assigns for a segment with a space.\<close>

definition item_pair :: "string \<Rightarrow> string \<times> string" where
  "item_pair item =
     (hd (split_space1 (strip item)), strip_quotes (split_space1 (strip item) ! 1))"

section \<open>Properties\<close>

subsection \<open>The region overlap matcher\<close>

lemma foldl_append_single: "foldl (\<lambda>res x. res @ [f x]) acc xs = acc @ map f xs"
  by (induction xs arbitrary: acc) simp_all

lemma foldl_append_concat: "foldl (\<lambda>res x. res @ g x) acc xs = acc @ concat (map g xs)"
  by (induction xs arbitrary: acc) simp_all

lemma introns_in_brain_regions_concat:
  "introns_in_brain_regions introns brain_regions =
     concat (map (\<lambda>i. map (result_row i) (matching i brain_regions)) introns)"
  by (simp add: introns_in_brain_regions_def foldl_append_single foldl_append_concat)

lemma concat_matching_product:
  "concat (map (\<lambda>i. map (result_row i) (matching i rs)) is) =
     map (\<lambda>(i, r). result_row i r)
       (filter (\<lambda>(i, r). seqname r = seqname i \<and>
                         max (start i) (start r) \<le> min (end' i) (end' r))
          (List.product is rs))"
  by (induction "is") (simp_all add: matching_def overlaps_def filter_map comp_def)

text \<open>
  C1. The rows of the result are, in order, one row per pair (intron, region) of the
  two tables (a pair being a position in each table) whose seqnames are equal and for
  which \<open>max (start intron) (start region) \<le> min (end intron) (end region)\<close>,
  and no other row. The rows that one intron of the table contributes are one per
  overlapping region, none when no region overlaps it, and stand between the rows of
  the introns before it and those of the introns after it. A row carries the source,
  start and end of its region and the columns of its intron.
\<close>

theorem introns_in_brain_regions_pairs:
  "introns_in_brain_regions introns brain_regions =
     map (\<lambda>(i, r). result_row i r)
       (filter (\<lambda>(i, r). seqname r = seqname i \<and>
                         max (start i) (start r) \<le> min (end' i) (end' r))
          (List.product introns brain_regions))
   \<and> introns_in_brain_regions (before @ [intron] @ after) brain_regions =
       introns_in_brain_regions before brain_regions
       @ map (result_row intron)
           (filter (\<lambda>r. seqname r = seqname intron \<and>
                         max (start intron) (start r) \<le> min (end' intron) (end' r))
              brain_regions)
       @ introns_in_brain_regions after brain_regions
   \<and> brain_region_source (result_row intron r) = region.source r
   \<and> brain_region_start (result_row intron r) = start r
   \<and> brain_region_end (result_row intron r) = end' r
   \<and> locus.truncate (result_row intron r) = locus.truncate intron
   \<and> transcript_id (result_row intron r) = transcript_id intron
   \<and> intron.strand (result_row intron r) = intron.strand intron"
  by (simp add: introns_in_brain_regions_concat concat_matching_product)
    (simp add: matching_def overlaps_def result_row_def locus.truncate_def)

subsection \<open>The attribute parser\<close>

lemma split_on_not_Nil [simp]: "split_on d s \<noteq> []"
  by (induction s) (auto split: list.splits)

lemma split_on_dropWhile:
  "\<not> P d \<Longrightarrow> split_on d (dropWhile P s) = dropWhile P (hd (split_on d s)) # tl (split_on d s)"
proof (induction s)
  case Nil
  then show ?case by simp
next
  case (Cons c cs)
  then show ?case by (cases "split_on d cs") auto
qed

lemma split_on_snoc:
  "split_on d (s @ [c]) =
     (if c = d then split_on d s @ [[]]
      else butlast (split_on d s) @ [last (split_on d s) @ [c]])"
proof (induction s)
  case Nil
  then show ?case by simp
next
  case (Cons a s)
  then show ?case
    by (cases "split_on d s") (auto split: list.splits simp: butlast_append)
qed

lemma split_on_rev: "split_on d (rev s) = rev (map rev (split_on d s))"
proof (induction s)
  case Nil
  then show ?case by simp
next
  case (Cons c cs)
  then show ?case
    by (cases "split_on d cs") (simp_all add: split_on_snoc)
qed

lemma strip_eq_Nil_iff: "strip s = [] \<longleftrightarrow> (\<forall>c \<in> set s. is_space c)"
proof -
  have "dropWhile is_space (rev (dropWhile is_space s)) = [] \<longleftrightarrow> dropWhile is_space s = []"
    by (auto dest: set_dropWhileD) (metis dropWhile_eq_Nil_conv hd_dropWhile hd_in_set)
  then show ?thesis
    by (simp add: strip_def strip_chars_def)
qed

lemma set_strip_subset: "set (strip s) \<subseteq> set s"
  by (auto simp: strip_def strip_chars_def dest!: set_dropWhileD)

lemma malformed_dropWhile: "malformed s \<Longrightarrow> malformed (dropWhile is_space s)"
proof -
  assume m: "malformed s"
  then obtain c where c: "c \<in> set s" "\<not> is_space c" by (auto simp: malformed_def)
  then have "dropWhile is_space s \<noteq> []" by auto
  then have "\<exists>c \<in> set (dropWhile is_space s). \<not> is_space c"
    by (metis hd_dropWhile hd_in_set)
  moreover from m have "CHR 0x20 \<notin> set (dropWhile is_space s)"
    by (auto simp: malformed_def dest: set_dropWhileD)
  ultimately show ?thesis by (simp add: malformed_def)
qed

lemma malformed_rev: "malformed (rev s) = malformed s"
  by (simp add: malformed_def)

lemma ex_malformed_dropWhile:
  assumes "\<exists>seg \<in> set (split_on CHR 0x3B s). malformed seg"
  shows "\<exists>seg \<in> set (split_on CHR 0x3B (dropWhile is_space s)). malformed seg"
proof -
  obtain w ws where split: "split_on CHR 0x3B s = w # ws"
    by (cases "split_on CHR 0x3B s") simp_all
  have "\<not> is_space CHR 0x3B" by (simp add: is_space_def)
  then have "split_on CHR 0x3B (dropWhile is_space s) = dropWhile is_space w # ws"
    by (simp add: split_on_dropWhile split)
  with assms split show ?thesis by (auto dest: malformed_dropWhile)
qed

lemma ex_malformed_rev:
  "(\<exists>seg \<in> set (split_on CHR 0x3B (rev s)). malformed seg) \<longleftrightarrow>
   (\<exists>seg \<in> set (split_on CHR 0x3B s). malformed seg)"
  by (auto simp: split_on_rev malformed_rev)

lemma ex_malformed_strip:
  assumes "\<exists>seg \<in> set (split_on CHR 0x3B s). malformed seg"
  shows "\<exists>seg \<in> set (split_on CHR 0x3B (strip s)). malformed seg"
  unfolding strip_def strip_chars_def
  using assms by (simp add: ex_malformed_rev ex_malformed_dropWhile)

lemma malformed_split_space1:
  assumes "malformed item"
  shows "strip item \<noteq> []" "split_space1 (strip item) = [strip item]"
proof -
  from assms show "strip item \<noteq> []" by (auto simp: strip_eq_Nil_iff malformed_def)
  from assms set_strip_subset [of item] have "CHR 0x20 \<notin> set (strip item)"
    by (auto simp: malformed_def)
  then show "split_space1 (strip item) = [strip item]" by (simp add: split_space1_def)
qed

lemma parse_items_raises:
  "\<exists>item \<in> set items. malformed item \<Longrightarrow> parse_items acc items = Inl ValueError"
proof (induction items arbitrary: acc)
  case Nil
  then show ?case by simp
next
  case (Cons item items)
  show ?case
  proof (cases "malformed item")
    case True
    then show ?thesis by (simp add: malformed_split_space1)
  next
    case False
    with Cons.prems have "\<exists>item \<in> set items. malformed item" by simp
    then have "parse_items acc' items = Inl ValueError" for acc' by (rule Cons.IH)
    then show ?thesis by (simp split: list.splits)
  qed
qed

text \<open>
  C7. When a segment of the attribute string (the text between two semicolons) has a
  character that is not white space, and no space character, \<open>parse_attributes\<close> raises
  ValueError: it returns no mapping, neither one without the segment nor the part built
  before it.
\<close>

theorem parse_attributes_raises:
  assumes "seg \<in> set (split_on CHR 0x3B attr_str)"
    and "strip seg \<noteq> []"
    and "CHR 0x20 \<notin> set seg"
  shows "parse_attributes attr_str = Inl ValueError"
proof -
  from assms(2,3) have "malformed seg" by (auto simp: malformed_def strip_eq_Nil_iff)
  with assms(1) have "\<exists>seg \<in> set (split_on CHR 0x3B (strip attr_str)). malformed seg"
    by (intro ex_malformed_strip) blast
  then show ?thesis by (simp add: parse_attributes_def parse_items_raises)
qed

theorem parse_attributes_raises_witness:
  "''bad'' \<in> set (split_on CHR 0x3B ''gene_id \"G1\";bad;x y'') \<and> strip ''bad'' \<noteq> []
   \<and> CHR 0x20 \<notin> set ''bad''
   \<and> parse_attributes ''gene_id \"G1\";bad;x y'' = Inl ValueError"
proof -
  have 1: "''bad'' \<in> set (split_on CHR 0x3B ''gene_id \"G1\";bad;x y'')" by simp
  have 2: "strip ''bad'' \<noteq> []" by (simp add: strip_def strip_chars_def is_space_def)
  have 3: "CHR 0x20 \<notin> set ''bad''" by simp
  from parse_attributes_raises [OF 1 2 3] 1 2 3 show ?thesis by simp
qed

lemma split_space1_cases:
  "(\<exists>key val. split_space1 s = [key, val] \<and> CHR 0x20 \<in> set s) \<or> (split_space1 s = [s] \<and> CHR 0x20 \<notin> set s)"
  by (simp add: split_space1_def)

lemma parse_items_map_of:
  "parse_items acc items = Inr attrs \<Longrightarrow>
   map_of attrs = map_of (rev (map item_pair (filter (\<lambda>item. strip item \<noteq> []) items)) @ acc)"
proof (induction items arbitrary: acc)
  case Nil
  then show ?case by simp
next
  case (Cons item items)
  show ?case
  proof (cases "strip item = []")
    case True
    with Cons show ?thesis by simp
  next
    case False
    from split_space1_cases [of "strip item"] show ?thesis
    proof
      assume "\<exists>key val. split_space1 (strip item) = [key, val] \<and> CHR 0x20 \<in> set (strip item)"
      then obtain key val where kv: "split_space1 (strip item) = [key, val]" by blast
      with False Cons.prems
      have "parse_items (AList.update key (strip_quotes val) acc) items = Inr attrs" by simp
      from Cons.IH [OF this] kv False show ?thesis
        by (simp add: item_pair_def update_conv' map_add_def fun_eq_iff split: option.splits)
    next
      assume "split_space1 (strip item) = [strip item] \<and> CHR 0x20 \<notin> set (strip item)"
      with False Cons.prems show ?thesis by simp
    qed
  qed
qed

lemma map_of_rev_last:
  assumes "j < length kvs" "fst (kvs ! j) = k"
    and "\<forall>j'. j < j' \<and> j' < length kvs \<longrightarrow> fst (kvs ! j') \<noteq> k"
  shows "map_of (rev kvs) k = Some (snd (kvs ! j))"
proof -
  have split: "kvs = take j kvs @ kvs ! j # drop (Suc j) kvs"
    using assms(1) by (simp add: id_take_nth_drop)
  have "k \<notin> fst ` set (drop (Suc j) kvs)"
  proof
    assume "k \<in> fst ` set (drop (Suc j) kvs)"
    then obtain p where "p \<in> set (drop (Suc j) kvs)" "fst p = k" by auto
    then obtain n where "n < length (drop (Suc j) kvs)" "drop (Suc j) kvs ! n = p"
      by (auto simp: in_set_conv_nth)
    then have "j < Suc j + n \<and> Suc j + n < length kvs" "kvs ! (Suc j + n) = p" by auto
    with assms(3) [rule_format, of "Suc j + n"] \<open>fst p = k\<close> show False by simp
  qed
  then have none: "map_of (rev (drop (Suc j) kvs)) k = None"
    by (simp add: map_of_eq_None_iff)
  have "map_of (rev kvs) k = map_of (rev (drop (Suc j) kvs) @ kvs ! j # rev (take j kvs)) k"
    by (subst split) simp
  also have "\<dots> = Some (snd (kvs ! j))"
    using none assms(2) by (cases "kvs ! j") (simp add: map_add_def)
  finally show ?thesis .
qed

text \<open>
  C10. When \<open>parse_attributes\<close> returns a mapping, \<open>items\<close> being the segments that are not
  blank, and the segment at position \<open>j\<close> splits into \<open>key\<close> and \<open>val\<close>, and no later
  segment has the same key, then the mapping binds \<open>key\<close> to \<open>val\<close> with the double
  quotes at its ends removed, whatever earlier segments assigned to the key.
\<close>

theorem parse_attributes_last_wins:
  assumes "parse_attributes attr_str = Inr attrs"
    and "items = filter (\<lambda>item. strip item \<noteq> []) (split_on CHR 0x3B (strip attr_str))"
    and "j < length items"
    and "split_space1 (strip (items ! j)) = [key, val]"
    and "\<forall>j'. j < j' \<and> j' < length items \<longrightarrow> hd (split_space1 (strip (items ! j'))) \<noteq> key"
  shows "map_of attrs key = Some (strip_quotes val)"
proof -
  let ?kvs = "map item_pair items"
  from assms(1) have "parse_items [] (split_on CHR 0x3B (strip attr_str)) = Inr attrs"
    by (simp add: parse_attributes_def)
  from parse_items_map_of [OF this] have "map_of attrs = map_of (rev ?kvs)"
    by (simp add: assms(2) rev_map)
  moreover have "map_of (rev ?kvs) key = Some (snd (?kvs ! j))"
  proof (rule map_of_rev_last)
    show "j < length ?kvs" using assms(3) by simp
    show "fst (?kvs ! j) = key" using assms(3,4) by (simp add: item_pair_def)
    show "\<forall>j'. j < j' \<and> j' < length ?kvs \<longrightarrow> fst (?kvs ! j') \<noteq> key"
      using assms(5) by (simp add: item_pair_def)
  qed
  moreover have "snd (?kvs ! j) = strip_quotes val"
    using assms(3,4) by (simp add: item_pair_def)
  ultimately show ?thesis by simp
qed

theorem parse_attributes_last_wins_witness:
  "parse_attributes ''gene_id \"G1\"; transcript_id \"T1\"; gene_id \"G2\";'' = Inr [(''gene_id'', ''G2''), (''transcript_id'', ''T1'')]
   \<and> map_of [(''gene_id'', ''G2''), (''transcript_id'', ''T1'')] ''gene_id'' = Some (strip_quotes ''\"G2\"'')"
proof -
  let ?s = "''gene_id \"G1\"; transcript_id \"T1\"; gene_id \"G2\";''"
  let ?items = "[''gene_id \"G1\"'', '' transcript_id \"T1\"'', '' gene_id \"G2\"'']"
  have 1: "parse_attributes ?s = Inr [(''gene_id'', ''G2''), (''transcript_id'', ''T1'')]"
    by (simp add: parse_attributes_def strip_def strip_chars_def is_space_def split_space1_def strip_quotes_def)
  have 2: "?items = filter (\<lambda>item. strip item \<noteq> []) (split_on CHR 0x3B (strip ?s))"
    by (simp add: strip_def strip_chars_def is_space_def)
  have 3: "(2::nat) < length ?items" by simp
  have 4: "split_space1 (strip (?items ! 2)) = [''gene_id'', ''\"G2\"'']"
    by (simp add: strip_def strip_chars_def is_space_def split_space1_def)
  have 5: "\<forall>j'. 2 < j' \<and> j' < length ?items \<longrightarrow> hd (split_space1 (strip (?items ! j'))) \<noteq> ''gene_id''"
    by auto
  from parse_attributes_last_wins [OF 1 2 3 4 5] 1 show ?thesis by simp
qed

subsection \<open>Intron derivation\<close>

lemma sorts_by_start_sort_key: "sorts_by_start (sort_key start)"
  by (simp add: sorts_by_start_def)

lemma sorts_by_start_props:
  assumes "sorts_by_start sort_values"
  shows "mset (sort_values grp) = mset grp" "sorted (map start (sort_values grp))"
    "set (sort_values grp) = set grp" "length (sort_values grp) = length grp"
proof -
  from assms show m: "mset (sort_values grp) = mset grp"
    and "sorted (map start (sort_values grp))"
    by (simp_all add: sorts_by_start_def)
  from m show "set (sort_values grp) = set grp" by (rule mset_eq_setD)
  from m show "length (sort_values grp) = length grp" by (rule mset_eq_length)
qed

text \<open>With pairwise different starts the sorted order is determined.\<close>

lemma sorts_by_start_distinct:
  assumes "sorts_by_start sort_values" and "distinct (map start grp)"
  shows "sort_values grp = sort_key start grp"
proof (rule sort_key_inj_key_eq [symmetric])
  from assms(1) show "mset grp = mset (sort_values grp)"
    by (simp add: sorts_by_start_props(1))
  from assms(2) show "inj_on start (set grp)" by (simp add: distinct_map)
  from assms(1) show "sorted (map start (sort_values grp))"
    by (rule sorts_by_start_props(2))
qed

lemma apply_parse_attributes_length:
  "apply_parse_attributes as = Inr ds \<Longrightarrow> length ds = length as"
  by (induction as arbitrary: ds) (auto split: sum.splits)

lemma extract_introns_Inr:
  assumes "extract_introns sort_values exons = Inr (exons', introns)"
  obtains attributes where
    "apply_parse_attributes (map attribute (rows exons)) = Inr attributes"
    "length attributes = length (rows exons)"
    "exons' = exons\<lparr>col_attributes := Some attributes,
                      col_transcript_id := Some (map get_transcript_id attributes)\<rparr>"
    "introns = concat (map (\<lambda>(tid, grp). group_introns sort_values tid grp)
                 (groupby (map get_transcript_id attributes) (rows exons)))"
proof (cases "apply_parse_attributes (map attribute (rows exons))")
  case (Inl e)
  with assms show ?thesis by (simp add: extract_introns_def)
next
  case (Inr attributes)
  with assms apply_parse_attributes_length [OF Inr] that [of attributes] show ?thesis
    by (simp add: extract_introns_def Let_def)
qed

lemma group_introns_member:
  assumes "x \<in> set (group_introns sort_values tid grp)"
  shows "start x \<le> end' x" "transcript_id x = tid"
    "seqname x = seqname (sort_values grp ! 0)"
    "intron.strand x = feature_record.strand (sort_values grp ! 0)"
    "2 \<le> length (sort_values grp)"
  using assms by (auto simp: group_introns_def Let_def split: if_splits)

lemma length_concat_le:
  "(\<And>x. x \<in> set xs \<Longrightarrow> length (f x) \<le> 1) \<Longrightarrow> length (concat (map f xs)) \<le> length xs"
proof (induction xs)
  case Nil
  then show ?case by simp
next
  case (Cons a xs)
  then have "length (f a) \<le> 1" "length (concat (map f xs)) \<le> length xs" by simp_all
  then show ?case by simp
qed

lemma length_group_introns:
  "length (group_introns sort_values tid grp) \<le> length (sort_values grp) - 1"
proof -
  have "length (group_introns sort_values tid grp) \<le> length [0 ..< length (sort_values grp) - 1]"
    unfolding group_introns_def Let_def
    by (rule order_trans [OF length_concat_le]) (simp_all add: Let_def)
  then show ?thesis by simp
qed

lemma groupby_keys: "map fst (groupby keys rs) = sort (remdups keys)"
  by (simp add: groupby_def comp_def)

lemma distinct_groupby: "distinct (map fst (groupby keys rs))"
  by (simp add: groupby_keys)

lemma groupby_member:
  "(tid, grp) \<in> set (groupby keys rs) \<longleftrightarrow>
     tid \<in> set keys \<and> grp = map snd (filter (\<lambda>kr. fst kr = tid) (zip keys rs))"
  by (auto simp: groupby_def)

lemma length_group:
  "length keys = length rs \<Longrightarrow>
   length (map snd (filter (\<lambda>kr. fst kr = tid) (zip keys rs))) = length (filter (\<lambda>k. k = tid) keys)"
proof (induction keys rs rule: list_induct2)
  case Nil
  then show ?case by simp
next
  case (Cons k ks r rs)
  then show ?case by simp
qed

lemma filter_concat_groups:
  assumes "distinct (map fst groups)"
  shows "filter (\<lambda>i. transcript_id i = tid)
       (concat (map (\<lambda>(t, grp). group_introns sort_values t grp) groups)) =
     (case map_of groups tid of None \<Rightarrow> [] | Some grp \<Rightarrow> group_introns sort_values tid grp)"
  using assms
proof (induction groups)
  case Nil
  then show ?case by simp
next
  case (Cons g groups)
  obtain t grp where g: "g = (t, grp)" by (cases g)
  have same: "filter (\<lambda>i. transcript_id i = tid) (group_introns sort_values t grp) =
      (if t = tid then group_introns sort_values t grp else [])"
    by (auto simp: filter_empty_conv filter_id_conv dest: group_introns_member(2))
  from Cons.prems have "distinct (map fst groups)" by simp
  note IH = Cons.IH [OF this]
  show ?case
  proof (cases "t = tid")
    case True
    with Cons.prems g have "map_of groups tid = None"
      by (simp add: map_of_eq_None_iff)
    with IH g True same show ?thesis by simp
  next
    case False
    with IH g same show ?thesis by simp
  qed
qed

text \<open>The introns of one transcript id are those of its group.\<close>

lemma filter_introns_group:
  "filter (\<lambda>i. transcript_id i = tid)
       (concat (map (\<lambda>(t, grp). group_introns sort_values t grp) (groupby keys rs))) =
     (if tid \<in> set keys
      then group_introns sort_values tid (map snd (filter (\<lambda>kr. fst kr = tid) (zip keys rs)))
      else [])"
proof (cases "tid \<in> set keys")
  case True
  then have "(tid, map snd (filter (\<lambda>kr. fst kr = tid) (zip keys rs))) \<in> set (groupby keys rs)"
    by (simp add: groupby_member)
  then have "map_of (groupby keys rs) tid = Some (map snd (filter (\<lambda>kr. fst kr = tid) (zip keys rs)))"
    by (simp add: distinct_groupby)
  with True show ?thesis by (simp add: filter_concat_groups distinct_groupby)
next
  case False
  then have "tid \<notin> set (map fst (groupby keys rs))"
    by (simp only: groupby_keys) simp
  then have "map_of (groupby keys rs) tid = None"
    by (simp add: map_of_eq_None_iff)
  with False show ?thesis by (simp add: filter_concat_groups distinct_groupby)
qed

lemma group_not_key:
  "tid \<notin> set keys \<Longrightarrow> map snd (filter (\<lambda>kr. fst kr = tid) (zip keys rs)) = []"
  by (auto simp: filter_empty_conv dest: set_zip_leftD)

lemma group_introns_Nil: 
  "sorts_by_start sort_values \<Longrightarrow> group_introns sort_values tid [] = []"
  using sorts_by_start_props(4) [of sort_values "[]"] by (simp add: group_introns_def)

lemma concat_groups_by_keys:
  "concat (map (\<lambda>(t, grp). group_introns sort_values t grp) (groupby keys rs)) =
   concat (map (\<lambda>tid. filter (\<lambda>i. transcript_id i = tid)
       (concat (map (\<lambda>(t, grp). group_introns sort_values t grp) (groupby keys rs))))
     (sort (remdups keys)))"
proof -
  have "map (\<lambda>(t, grp). group_introns sort_values t grp) (groupby keys rs) =
      map (\<lambda>tid. group_introns sort_values tid
             (map snd (filter (\<lambda>kr. fst kr = tid) (zip keys rs)))) (sort (remdups keys))"
    by (simp add: groupby_def comp_def)
  also have "\<dots> = map (\<lambda>tid. filter (\<lambda>i. transcript_id i = tid)
       (concat (map (\<lambda>(t, grp). group_introns sort_values t grp) (groupby keys rs))))
     (sort (remdups keys))"
    by (rule map_cong) (simp_all add: filter_introns_group)
  finally show ?thesis by simp
qed

lemma zip_tl_nth: "zip xs (tl xs) = map (\<lambda>i. (xs ! i, xs ! (i + 1))) [0 ..< length xs - 1]"
  by (rule nth_equalityI) (auto simp: nth_tl)

lemma intron_loop_pairs:
  assumes "\<forall>i \<in> set is. i + 1 < length g"
  shows "map (\<lambda>x. (start x, end' x))
     (concat (map (\<lambda>i.
           let intron_start = snd (zip (map start g) (map end' g) ! i) + 1;
               intron_end = fst (zip (map start g) (map end' g) ! (i + 1)) - 1
           in if intron_end \<ge> intron_start
              then [\<lparr>seqname = sq, start = intron_start, end' = intron_end,
                     transcript_id = tid, strand = sd\<rparr>]
              else []) is))
   = filter (\<lambda>(s, e). s \<le> e)
       (map (\<lambda>(prev, next). (end' prev + 1, start next - 1))
          (map (\<lambda>i. (g ! i, g ! (i + 1))) is))"
  using assms by (induction "is") (simp_all add: Let_def)

lemma group_introns_pairs:
  "map (\<lambda>i. (start i, end' i)) (group_introns sort_values tid grp) =
     filter (\<lambda>(s, e). s \<le> e)
       (map (\<lambda>(prev, next). (end' prev + 1, start next - 1))
          (zip (sort_values grp) (tl (sort_values grp))))"
proof -
  have "\<forall>i \<in> set [0 ..< length (sort_values grp) - 1]. i + 1 < length (sort_values grp)"
    by auto
  from intron_loop_pairs [OF this] show ?thesis
    by (simp add: group_introns_def zip_tl_nth Let_def)
qed

lemmas eval_defs = extract_introns_def parse_attributes_def strip_def strip_chars_def is_space_def
  split_space1_def strip_quotes_def get_transcript_id_def groupby_def group_introns_def
  exon_row_def new_frame_def Let_def

text \<open>
  C3. Every intron that \<open>extract_introns\<close> returns has \<open>start \<le> end\<close>, and the introns
  of one transcript are at most the number of its exons minus one (none for a transcript
  id that no exon has). Two exons (1, 100) and (101, 200) of one transcript, which touch,
  give no intron and no error.
\<close>

theorem extract_introns_intervals:
  assumes "sorts_by_start sort_values"
  shows "(extract_introns sort_values exons = Inr (exons', introns) \<longrightarrow>
      (\<forall>i \<in> set introns. start i \<le> end' i) \<and>
      (\<exists>tids. col_transcript_id exons' = Some tids \<and> length tids = length (rows exons) \<and>
         (\<forall>tid. length (filter (\<lambda>i. transcript_id i = tid) introns)
                  \<le> length (filter (\<lambda>k. k = tid) tids) - 1)))
   \<and> (\<exists>exons'. extract_introns sort_values (new_frame
          [exon_row sq 1 100 sd ''gene_id \"G1\"; transcript_id \"T1\";'',
           exon_row sq 101 200 sd ''gene_id \"G1\"; transcript_id \"T1\";''])
        = Inr (exons', []))"
proof (intro conjI impI)
  assume ok: "extract_introns sort_values exons = Inr (exons', introns)"
  then obtain attributes where
    len: "length attributes = length (rows exons)" and
    frame: "exons' = exons\<lparr>col_attributes := Some attributes,
                      col_transcript_id := Some (map get_transcript_id attributes)\<rparr>" and
    introns: "introns = concat (map (\<lambda>(tid, grp). group_introns sort_values tid grp)
                 (groupby (map get_transcript_id attributes) (rows exons)))"
    by (rule extract_introns_Inr)
  let ?tids = "map get_transcript_id attributes"
  show "\<forall>i \<in> set introns. start i \<le> end' i"
    unfolding introns by (auto dest: group_introns_member(1))
  have count: "length (filter (\<lambda>i. transcript_id i = tid) introns)
      \<le> length (filter (\<lambda>k. k = tid) ?tids) - 1" for tid
  proof (cases "tid \<in> set ?tids")
    case False
    then show ?thesis unfolding introns by (simp add: filter_introns_group)
  next
    case True
    let ?grp = "map snd (filter (\<lambda>kr. fst kr = tid) (zip ?tids (rows exons)))"
    from len have "length ?tids = length (rows exons)" by simp
    then have "length ?grp = length (filter (\<lambda>k. k = tid) ?tids)"
      by (rule length_group)
    moreover have "length (sort_values ?grp) = length ?grp"
      using assms by (rule sorts_by_start_props(4))
    moreover note length_group_introns [of sort_values tid ?grp]
    ultimately show ?thesis
      unfolding introns using True by (simp add: filter_introns_group)
  qed
  from frame len count
  show "\<exists>tids. col_transcript_id exons' = Some tids \<and> length tids = length (rows exons) \<and>
         (\<forall>tid. length (filter (\<lambda>i. transcript_id i = tid) introns)
                  \<le> length (filter (\<lambda>k. k = tid) tids) - 1)"
    by auto
next
  show "\<exists>exons'. extract_introns sort_values (new_frame
          [exon_row sq 1 100 sd ''gene_id \"G1\"; transcript_id \"T1\";'',
           exon_row sq 101 200 sd ''gene_id \"G1\"; transcript_id \"T1\";''])
        = Inr (exons', [])"
    by (simp add: eval_defs sorts_by_start_distinct [OF assms])
qed

theorem extract_introns_intervals_witness:
  "sorts_by_start (sort_key start)
   \<and> extract_introns (sort_key start) (new_frame
     [exon_row ''chr1'' 1 100 ''+'' ''transcript_id \"T1\";'',
      exon_row ''chr1'' 201 300 ''+'' ''transcript_id \"T1\";'',
      exon_row ''chr1'' 401 500 ''+'' ''transcript_id \"T1\";''])
   = Inr ((new_frame
     [exon_row ''chr1'' 1 100 ''+'' ''transcript_id \"T1\";'',
      exon_row ''chr1'' 201 300 ''+'' ''transcript_id \"T1\";'',
      exon_row ''chr1'' 401 500 ''+'' ''transcript_id \"T1\";''])
        \<lparr>col_attributes := Some [[(''transcript_id'', ''T1'')], [(''transcript_id'', ''T1'')],
                                   [(''transcript_id'', ''T1'')]],
         col_transcript_id := Some [''T1'', ''T1'', ''T1'']\<rparr>,
       [\<lparr>seqname = ''chr1'', start = 101, end' = 200, transcript_id = ''T1'', strand = ''+''\<rparr>,
        \<lparr>seqname = ''chr1'', start = 301, end' = 400, transcript_id = ''T1'', strand = ''+''\<rparr>])
   \<and> list_all (\<lambda>i. start i \<le> end' i)
       [\<lparr>seqname = ''chr1'', start = 101, end' = 200, transcript_id = ''T1'', strand = ''+''\<rparr>,
        \<lparr>seqname = ''chr1'', start = 301, end' = 400, transcript_id = ''T1'', strand = ''+''\<rparr>]
   \<and> length (filter (\<lambda>i. transcript_id i = ''T1'')
       [\<lparr>seqname = ''chr1'', start = 101, end' = 200, transcript_id = ''T1'', strand = ''+''\<rparr>,
        \<lparr>seqname = ''chr1'', start = 301, end' = 400, transcript_id = ''T1'', strand = ''+''\<rparr>])
       \<le> length (filter (\<lambda>k. k = ''T1'') [''T1'', ''T1'', ''T1'']) - 1"
  (is "_ \<and> ?run = Inr (?frame, ?introns) \<and> _")
proof -
  have ok: "?run = Inr (?frame, ?introns)"
    by (simp add: eval_defs)
  from extract_introns_intervals [OF sorts_by_start_sort_key, THEN conjunct1, rule_format, OF ok]
  have "\<forall>i \<in> set ?introns. start i \<le> end' i"
    and "\<exists>tids. col_transcript_id ?frame = Some tids \<and>
         (\<forall>tid. length (filter (\<lambda>i. transcript_id i = tid) ?introns)
                  \<le> length (filter (\<lambda>k. k = tid) tids) - 1)"
    by blast+
  with ok sorts_by_start_sort_key show ?thesis by (simp add: list_all_iff new_frame_def)
qed

text \<open>
  C2. For one transcript with the exons (1, 100), (201, 300) and (401, 500), in this
  order or another, \<open>extract_introns\<close> returns exactly the introns (101, 200) and
  (301, 400), in this order. In general, for every table of exons: the introns come
  transcript by transcript, in ascending order of the transcript id; the exons of a
  transcript are sorted by ascending start; and the intervals of the introns of the
  transcript are, in order, the pairs \<open>(end prev + 1, start next - 1)\<close> of the adjacent
  exons of the sorted group, those with \<open>start \<le> end\<close> only.
\<close>

theorem extract_introns_adjacent_pairs:
  assumes "sorts_by_start sort_values"
  shows "(\<exists>exons'. extract_introns sort_values (new_frame
       [exon_row sq 1 100 sd ''gene_id \"G1\"; transcript_id \"T1\";'',
        exon_row sq 201 300 sd ''gene_id \"G1\"; transcript_id \"T1\";'',
        exon_row sq 401 500 sd ''gene_id \"G1\"; transcript_id \"T1\";''])
     = Inr (exons',
       [\<lparr>seqname = sq, start = 101, end' = 200, transcript_id = ''T1'', strand = sd\<rparr>,
        \<lparr>seqname = sq, start = 301, end' = 400, transcript_id = ''T1'', strand = sd\<rparr>]))
   \<and> (\<exists>exons'. extract_introns sort_values (new_frame
       [exon_row sq 401 500 sd ''gene_id \"G1\"; transcript_id \"T1\";'',
        exon_row sq 1 100 sd ''gene_id \"G1\"; transcript_id \"T1\";'',
        exon_row sq 201 300 sd ''gene_id \"G1\"; transcript_id \"T1\";''])
     = Inr (exons',
       [\<lparr>seqname = sq, start = 101, end' = 200, transcript_id = ''T1'', strand = sd\<rparr>,
        \<lparr>seqname = sq, start = 301, end' = 400, transcript_id = ''T1'', strand = sd\<rparr>]))
   \<and> (extract_introns sort_values exons = Inr (exons', introns) \<longrightarrow>
       (\<exists>tids. col_transcript_id exons' = Some tids \<and> length tids = length (rows exons) \<and>
          introns = concat (map (\<lambda>tid. filter (\<lambda>i. transcript_id i = tid) introns)
                              (sort (remdups tids))) \<and>
          (\<forall>tid. let group = sort_values (rows_of tid tids (rows exons)) in
             mset group = mset (rows_of tid tids (rows exons)) \<and>
             sorted (map start group) \<and>
             map (\<lambda>i. (start i, end' i)) (filter (\<lambda>i. transcript_id i = tid) introns) =
               filter (\<lambda>(s, e). s \<le> e)
                 (map (\<lambda>(prev, next). (end' prev + 1, start next - 1))
                    (zip group (tl group))))))"
proof (intro conjI impI)
  assume ok: "extract_introns sort_values exons = Inr (exons', introns)"
  then obtain attributes where
    len: "length attributes = length (rows exons)" and
    frame: "exons' = exons\<lparr>col_attributes := Some attributes,
                      col_transcript_id := Some (map get_transcript_id attributes)\<rparr>" and
    introns: "introns = concat (map (\<lambda>(tid, grp). group_introns sort_values tid grp)
                 (groupby (map get_transcript_id attributes) (rows exons)))"
    by (rule extract_introns_Inr)
  let ?tids = "map get_transcript_id attributes"
  have order: "introns = concat (map (\<lambda>tid. filter (\<lambda>i. transcript_id i = tid) introns)
                              (sort (remdups ?tids)))"
    unfolding introns by (rule concat_groups_by_keys)
  have pairs: "map (\<lambda>i. (start i, end' i)) (filter (\<lambda>i. transcript_id i = tid) introns) =
      filter (\<lambda>(s, e). s \<le> e)
        (map (\<lambda>(prev, next). (end' prev + 1, start next - 1))
           (zip (sort_values (rows_of tid ?tids (rows exons)))
                (tl (sort_values (rows_of tid ?tids (rows exons))))))" for tid
  proof (cases "tid \<in> set ?tids")
    case True
    then show ?thesis
      unfolding introns by (simp add: filter_introns_group group_introns_pairs rows_of_def)
  next
    case False
    then have "rows_of tid ?tids (rows exons) = []"
      by (simp add: rows_of_def group_not_key)
    moreover have "length (sort_values []) = length ([] :: feature_record list)"
      using assms by (rule sorts_by_start_props(4))
    ultimately show ?thesis
      using False unfolding introns by (simp add: filter_introns_group)
  qed
  from frame len order pairs assms
  show "\<exists>tids. col_transcript_id exons' = Some tids \<and> length tids = length (rows exons) \<and>
          introns = concat (map (\<lambda>tid. filter (\<lambda>i. transcript_id i = tid) introns)
                              (sort (remdups tids))) \<and>
          (\<forall>tid. let group = sort_values (rows_of tid tids (rows exons)) in
             mset group = mset (rows_of tid tids (rows exons)) \<and>
             sorted (map start group) \<and>
             map (\<lambda>i. (start i, end' i)) (filter (\<lambda>i. transcript_id i = tid) introns) =
               filter (\<lambda>(s, e). s \<le> e)
                 (map (\<lambda>(prev, next). (end' prev + 1, start next - 1))
                    (zip group (tl group))))"
    by (intro exI [of _ ?tids]) (simp add: Let_def sorts_by_start_props)
qed (simp_all add: eval_defs sorts_by_start_distinct [OF assms])

theorem extract_introns_adjacent_pairs_witness:
  "sorts_by_start (sort_key start)
   \<and> extract_introns (sort_key start) (new_frame
     [exon_row ''chr1'' 201 300 ''+'' ''transcript_id \"T1\";'',
      exon_row ''chr2'' 1201 1300 ''-'' ''transcript_id \"T2\";'',
      exon_row ''chr1'' 1 100 ''+'' ''transcript_id \"T1\";'',
      exon_row ''chr2'' 1001 1100 ''-'' ''transcript_id \"T2\";''])
   = Inr ((new_frame
     [exon_row ''chr1'' 201 300 ''+'' ''transcript_id \"T1\";'',
      exon_row ''chr2'' 1201 1300 ''-'' ''transcript_id \"T2\";'',
      exon_row ''chr1'' 1 100 ''+'' ''transcript_id \"T1\";'',
      exon_row ''chr2'' 1001 1100 ''-'' ''transcript_id \"T2\";''])
        \<lparr>col_attributes := Some [[(''transcript_id'', ''T1'')], [(''transcript_id'', ''T2'')],
                                   [(''transcript_id'', ''T1'')], [(''transcript_id'', ''T2'')]],
         col_transcript_id := Some [''T1'', ''T2'', ''T1'', ''T2'']\<rparr>,
       [\<lparr>seqname = ''chr1'', start = 101, end' = 200, transcript_id = ''T1'', strand = ''+''\<rparr>,
        \<lparr>seqname = ''chr2'', start = 1101, end' = 1200, transcript_id = ''T2'', strand = ''-''\<rparr>])
   \<and> map (\<lambda>i. (start i, end' i)) (filter (\<lambda>i. transcript_id i = ''T2'')
       [\<lparr>seqname = ''chr1'', start = 101, end' = 200, transcript_id = ''T1'', strand = ''+''\<rparr>,
        \<lparr>seqname = ''chr2'', start = 1101, end' = 1200, transcript_id = ''T2'', strand = ''-''\<rparr>])
     = [(1101, 1200)]"
  (is "_ \<and> extract_introns _ (new_frame ?rows) = Inr (?frame, ?introns) \<and> _")
proof -
  have ok: "extract_introns (sort_key start) (new_frame ?rows) = Inr (?frame, ?introns)"
    by (simp add: eval_defs)
  from extract_introns_adjacent_pairs [OF sorts_by_start_sort_key,
      THEN conjunct2, THEN conjunct2, rule_format, OF ok]
  obtain tids where
    tids: "col_transcript_id ?frame = Some tids" and
    pairs: "\<forall>tid. let group = sort_key start (rows_of tid tids (rows (new_frame ?rows))) in
             mset group = mset (rows_of tid tids (rows (new_frame ?rows))) \<and>
             sorted (map start group) \<and>
             map (\<lambda>i. (start i, end' i)) (filter (\<lambda>i. transcript_id i = tid) ?introns) =
               filter (\<lambda>(s, e). s \<le> e)
                 (map (\<lambda>(prev, next). (end' prev + 1, start next - 1))
                    (zip group (tl group)))"
    by blast
  from tids have "tids = [''T1'', ''T2'', ''T1'', ''T2'']" by (simp add: new_frame_def)
  with pairs [rule_format, of "''T2''"]
  have "map (\<lambda>i. (start i, end' i)) (filter (\<lambda>i. transcript_id i = ''T2'') ?introns)
      = [(1101, 1200)]"
    by (simp add: Let_def rows_of_def new_frame_def exon_row_def)
  with ok sorts_by_start_sort_key show ?thesis by simp
qed

text \<open>
  C5, as stated, fails. For a transcript whose exons are met in the order (chr2, 201,
  300, strand -), (chr1, 1, 100, strand +), the run returns, whatever the sort does with
  ties, the intron (101, 200) with the seqname chr1 and the strand + of the exon of least
  start, not those of the exon met first.
\<close>

theorem extract_introns_first_encountered_counterexample:
  "sorts_by_start (sort_key start)
   \<and> \<not> (\<exists>sort_values. sorts_by_start sort_values \<and>
        extract_introns sort_values (new_frame
          [exon_row ''chr2'' 201 300 ''-'' ''transcript_id \"T1\";'',
           exon_row ''chr1'' 1 100 ''+'' ''transcript_id \"T1\";''])
        \<noteq> Inr ((new_frame
          [exon_row ''chr2'' 201 300 ''-'' ''transcript_id \"T1\";'',
           exon_row ''chr1'' 1 100 ''+'' ''transcript_id \"T1\";''])
             \<lparr>col_attributes := Some [[(''transcript_id'', ''T1'')], [(''transcript_id'', ''T1'')]],
              col_transcript_id := Some [''T1'', ''T1'']\<rparr>,
            [\<lparr>seqname = ''chr1'', start = 101, end' = 200, transcript_id = ''T1'',
              strand = ''+''\<rparr>]))
   \<and> seqname \<lparr>seqname = ''chr1'', start = 101, end' = 200, transcript_id = ''T1'', strand = ''+''\<rparr>
       \<noteq> seqname (exon_row ''chr2'' 201 300 ''-'' ''transcript_id \"T1\";'')
   \<and> intron.strand
         \<lparr>seqname = ''chr1'', start = 101, end' = 200, transcript_id = ''T1'', strand = ''+''\<rparr>
       \<noteq> feature_record.strand (exon_row ''chr2'' 201 300 ''-'' ''transcript_id \"T1\";'')"
proof (intro conjI notI)
  show "sorts_by_start (sort_key start)" by (rule sorts_by_start_sort_key)
next
  assume "\<exists>sort_values. sorts_by_start sort_values \<and>
        extract_introns sort_values (new_frame
          [exon_row ''chr2'' 201 300 ''-'' ''transcript_id \"T1\";'',
           exon_row ''chr1'' 1 100 ''+'' ''transcript_id \"T1\";''])
        \<noteq> Inr ((new_frame
          [exon_row ''chr2'' 201 300 ''-'' ''transcript_id \"T1\";'',
           exon_row ''chr1'' 1 100 ''+'' ''transcript_id \"T1\";''])
             \<lparr>col_attributes := Some [[(''transcript_id'', ''T1'')], [(''transcript_id'', ''T1'')]],
              col_transcript_id := Some [''T1'', ''T1'']\<rparr>,
            [\<lparr>seqname = ''chr1'', start = 101, end' = 200, transcript_id = ''T1'',
              strand = ''+''\<rparr>])"
  then obtain sort_values where s: "sorts_by_start sort_values" and
    ne: "extract_introns sort_values (new_frame
          [exon_row ''chr2'' 201 300 ''-'' ''transcript_id \"T1\";'',
           exon_row ''chr1'' 1 100 ''+'' ''transcript_id \"T1\";''])
        \<noteq> Inr ((new_frame
          [exon_row ''chr2'' 201 300 ''-'' ''transcript_id \"T1\";'',
           exon_row ''chr1'' 1 100 ''+'' ''transcript_id \"T1\";''])
             \<lparr>col_attributes := Some [[(''transcript_id'', ''T1'')], [(''transcript_id'', ''T1'')]],
              col_transcript_id := Some [''T1'', ''T1'']\<rparr>,
            [\<lparr>seqname = ''chr1'', start = 101, end' = 200, transcript_id = ''T1'',
              strand = ''+''\<rparr>])"
    by blast
  from ne show False by (simp add: eval_defs sorts_by_start_distinct [OF s])
qed (simp_all add: exon_row_def)

lemma sorted_first_least:
  assumes "sorted (map f xs)" and "xs = first # rest"
  shows "\<forall>e \<in> set xs. f first \<le> f e"
  using assms by auto

text \<open>
  C5, amended. The seqname and the strand of every intron are those of the first row of
  its transcript group as \<open>sort_values\<close> returns it, which is an exon of the group of
  least start; which one, among several exons of equal least start, the code does not
  determine. The other exons of the group are not compared with it.
\<close>

theorem extract_introns_seqname_strand:
  assumes "sorts_by_start sort_values"
    and "extract_introns sort_values exons = Inr (exons', introns)"
    and "i \<in> set introns"
  shows "\<exists>tids first rest.
     col_transcript_id exons' = Some tids \<and>
     sort_values (rows_of (transcript_id i) tids (rows exons)) = first # rest \<and>
     first \<in> set (rows_of (transcript_id i) tids (rows exons)) \<and>
     (\<forall>e \<in> set (rows_of (transcript_id i) tids (rows exons)). start first \<le> start e) \<and>
     seqname i = seqname first \<and>
     intron.strand i = feature_record.strand first"
proof -
  from assms(2) obtain attributes where
    frame: "exons' = exons\<lparr>col_attributes := Some attributes,
                      col_transcript_id := Some (map get_transcript_id attributes)\<rparr>" and
    introns: "introns = concat (map (\<lambda>(tid, grp). group_introns sort_values tid grp)
                 (groupby (map get_transcript_id attributes) (rows exons)))"
    by (rule extract_introns_Inr)
  let ?tids = "map get_transcript_id attributes"
  from assms(3) obtain tid grp where
    grp: "(tid, grp) \<in> set (groupby ?tids (rows exons))" and
    mem: "i \<in> set (group_introns sort_values tid grp)"
    unfolding introns by auto
  from mem have tid: "transcript_id i = tid" by (rule group_introns_member(2))
  from grp have grp_eq: "grp = rows_of tid ?tids (rows exons)"
    by (simp add: groupby_member rows_of_def)
  from mem have "2 \<le> length (sort_values grp)" by (rule group_introns_member(5))
  then obtain first rest where sorted: "sort_values grp = first # rest"
    by (cases "sort_values grp") simp_all
  from mem sorted have same: "seqname i = seqname first"
    "intron.strand i = feature_record.strand first"
    by (simp_all add: group_introns_member(3,4))
  have set_eq: "set (sort_values grp) = set grp"
    using assms(1) by (rule sorts_by_start_props(3))
  with sorted have first: "first \<in> set grp" by auto
  have "sorted (map start (sort_values grp))"
    using assms(1) by (rule sorts_by_start_props(2))
  from sorted_first_least [OF this sorted] set_eq
  have least: "\<forall>e \<in> set grp. start first \<le> start e" by simp
  from frame sorted first least same show ?thesis
    unfolding tid grp_eq by auto
qed

theorem extract_introns_seqname_strand_witness:
  "sorts_by_start (sort_key start)
   \<and> extract_introns (sort_key start) (new_frame
     [exon_row ''chr2'' 201 300 ''-'' ''transcript_id \"T1\";'',
      exon_row ''chr1'' 1 100 ''+'' ''transcript_id \"T1\";''])
   = Inr ((new_frame
     [exon_row ''chr2'' 201 300 ''-'' ''transcript_id \"T1\";'',
      exon_row ''chr1'' 1 100 ''+'' ''transcript_id \"T1\";''])
        \<lparr>col_attributes := Some [[(''transcript_id'', ''T1'')], [(''transcript_id'', ''T1'')]],
         col_transcript_id := Some [''T1'', ''T1'']\<rparr>,
       [\<lparr>seqname = ''chr1'', start = 101, end' = 200, transcript_id = ''T1'', strand = ''+''\<rparr>])
   \<and> seqname \<lparr>seqname = ''chr1'', start = 101, end' = 200, transcript_id = ''T1'', strand = ''+''\<rparr>
       = seqname (exon_row ''chr1'' 1 100 ''+'' ''transcript_id \"T1\";'')
   \<and> intron.strand
         \<lparr>seqname = ''chr1'', start = 101, end' = 200, transcript_id = ''T1'', strand = ''+''\<rparr>
       = feature_record.strand (exon_row ''chr1'' 1 100 ''+'' ''transcript_id \"T1\";'')"
  (is "_ \<and> extract_introns _ (new_frame ?rows) = Inr (?frame, [?i]) \<and> _")
proof -
  have ok: "extract_introns (sort_key start) (new_frame ?rows) = Inr (?frame, [?i])"
    by (simp add: eval_defs)
  have mem: "?i \<in> set [?i]" by simp
  from extract_introns_seqname_strand [OF sorts_by_start_sort_key ok mem]
  obtain tids first rest where
    tids: "col_transcript_id ?frame = Some tids" and
    sorted: "sort_key start (rows_of (transcript_id ?i) tids (rows (new_frame ?rows)))
       = first # rest" and
    same: "seqname ?i = seqname first" "intron.strand ?i = feature_record.strand first"
    by blast
  from tids have "tids = [''T1'', ''T1'']" by (simp add: new_frame_def)
  with sorted have "first = exon_row ''chr1'' 1 100 ''+'' ''transcript_id \"T1\";''"
    by (simp add: new_frame_def exon_row_def rows_of_def)
  with same ok sorts_by_start_sort_key show ?thesis by simp
qed

text \<open>
  C9, as stated, fails. After \<open>extract_introns\<close> the exon table it received is not the
  table it was: it has the columns attributes and transcript_id.
\<close>

theorem extract_introns_mutates_counterexample:
  "sorts_by_start (sort_key start)
   \<and> \<not> (\<exists>sort_values. sorts_by_start sort_values \<and>
        extract_introns sort_values (new_frame
          [exon_row ''chr1'' 1 100 ''+'' ''transcript_id \"T1\";'',
           exon_row ''chr1'' 201 300 ''+'' ''transcript_id \"T1\";''])
        \<noteq> Inr ((new_frame
          [exon_row ''chr1'' 1 100 ''+'' ''transcript_id \"T1\";'',
           exon_row ''chr1'' 201 300 ''+'' ''transcript_id \"T1\";''])
             \<lparr>col_attributes := Some [[(''transcript_id'', ''T1'')], [(''transcript_id'', ''T1'')]],
              col_transcript_id := Some [''T1'', ''T1'']\<rparr>,
            [\<lparr>seqname = ''chr1'', start = 101, end' = 200, transcript_id = ''T1'',
              strand = ''+''\<rparr>]))
   \<and> (new_frame
     [exon_row ''chr1'' 1 100 ''+'' ''transcript_id \"T1\";'',
      exon_row ''chr1'' 201 300 ''+'' ''transcript_id \"T1\";''])
        \<lparr>col_attributes := Some [[(''transcript_id'', ''T1'')], [(''transcript_id'', ''T1'')]],
         col_transcript_id := Some [''T1'', ''T1'']\<rparr>
       \<noteq> new_frame
     [exon_row ''chr1'' 1 100 ''+'' ''transcript_id \"T1\";'',
      exon_row ''chr1'' 201 300 ''+'' ''transcript_id \"T1\";'']"
proof (intro conjI notI)
  show "sorts_by_start (sort_key start)" by (rule sorts_by_start_sort_key)
next
  assume "\<exists>sort_values. sorts_by_start sort_values \<and>
        extract_introns sort_values (new_frame
          [exon_row ''chr1'' 1 100 ''+'' ''transcript_id \"T1\";'',
           exon_row ''chr1'' 201 300 ''+'' ''transcript_id \"T1\";''])
        \<noteq> Inr ((new_frame
          [exon_row ''chr1'' 1 100 ''+'' ''transcript_id \"T1\";'',
           exon_row ''chr1'' 201 300 ''+'' ''transcript_id \"T1\";''])
             \<lparr>col_attributes := Some [[(''transcript_id'', ''T1'')], [(''transcript_id'', ''T1'')]],
              col_transcript_id := Some [''T1'', ''T1'']\<rparr>,
            [\<lparr>seqname = ''chr1'', start = 101, end' = 200, transcript_id = ''T1'',
              strand = ''+''\<rparr>])"
  then obtain sort_values where s: "sorts_by_start sort_values" and
    ne: "extract_introns sort_values (new_frame
          [exon_row ''chr1'' 1 100 ''+'' ''transcript_id \"T1\";'',
           exon_row ''chr1'' 201 300 ''+'' ''transcript_id \"T1\";''])
        \<noteq> Inr ((new_frame
          [exon_row ''chr1'' 1 100 ''+'' ''transcript_id \"T1\";'',
           exon_row ''chr1'' 201 300 ''+'' ''transcript_id \"T1\";''])
             \<lparr>col_attributes := Some [[(''transcript_id'', ''T1'')], [(''transcript_id'', ''T1'')]],
              col_transcript_id := Some [''T1'', ''T1'']\<rparr>,
            [\<lparr>seqname = ''chr1'', start = 101, end' = 200, transcript_id = ''T1'',
              strand = ''+''\<rparr>])"
    by blast
  from ne show False by (simp add: eval_defs sorts_by_start_distinct [OF s])
qed (simp add: new_frame_def)

text \<open>
  C9, amended. \<open>extract_introns\<close> assigns the columns attributes and transcript_id of the
  exon table it receives, one parsed attribute mapping and one transcript id per row, and
  leaves the rows of the table, that is the nine columns it had, unchanged.
\<close>

theorem extract_introns_frame:
  assumes "extract_introns sort_values exons = Inr (exons', introns)"
  shows "rows exons' = rows exons \<and>
     (\<exists>attributes.
        apply_parse_attributes (map attribute (rows exons)) = Inr attributes \<and>
        length attributes = length (rows exons) \<and>
        col_attributes exons' = Some attributes \<and>
        col_transcript_id exons' = Some (map get_transcript_id attributes))"
  using assms by (rule extract_introns_Inr) auto

theorem extract_introns_frame_witness:
  "extract_introns (sort_key start) (new_frame
     [exon_row ''chr1'' 1 100 ''+'' ''transcript_id \"T1\";'',
      exon_row ''chr1'' 201 300 ''+'' ''transcript_id \"T1\";''])
   = Inr ((new_frame
     [exon_row ''chr1'' 1 100 ''+'' ''transcript_id \"T1\";'',
      exon_row ''chr1'' 201 300 ''+'' ''transcript_id \"T1\";''])
        \<lparr>col_attributes := Some [[(''transcript_id'', ''T1'')], [(''transcript_id'', ''T1'')]],
         col_transcript_id := Some [''T1'', ''T1'']\<rparr>,
       [\<lparr>seqname = ''chr1'', start = 101, end' = 200, transcript_id = ''T1'', strand = ''+''\<rparr>])
   \<and> rows ((new_frame
     [exon_row ''chr1'' 1 100 ''+'' ''transcript_id \"T1\";'',
      exon_row ''chr1'' 201 300 ''+'' ''transcript_id \"T1\";''])
        \<lparr>col_attributes := Some [[(''transcript_id'', ''T1'')], [(''transcript_id'', ''T1'')]],
         col_transcript_id := Some [''T1'', ''T1'']\<rparr>)
     = [exon_row ''chr1'' 1 100 ''+'' ''transcript_id \"T1\";'',
        exon_row ''chr1'' 201 300 ''+'' ''transcript_id \"T1\";'']"
  (is "extract_introns _ (new_frame ?rows) = Inr (?frame, ?introns) \<and> _")
proof -
  have ok: "extract_introns (sort_key start) (new_frame ?rows) = Inr (?frame, ?introns)"
    by (simp add: eval_defs)
  from extract_introns_frame [OF ok] have "rows ?frame = rows (new_frame ?rows)"
    by (elim conjE)
  with ok show ?thesis by (simp add: new_frame_def)
qed

subsection \<open>The reference join and the annotation reader\<close>

lemma merge_empty: "merge known_introns [] = Inl (KeyError ''seqname'')"
  by (simp add: merge_def DataFrame_columns_def)

lemma concat_filter_product:
  "concat (map (\<lambda>k. map (Pair k) (filter (\<lambda>m. P k m) ms)) ks) =
     filter (\<lambda>(k, m). P k m) (List.product ks ms)"
  by (induction ks) (simp_all add: filter_map comp_def)

text \<open>
  When the table of region-matched introns has a row and the table of known introns has
  the three key columns, the join succeeds and its rows are the pairs of a known intron
  and a region-matched intron with equal seqname, start and end.
\<close>

lemma merge_inner_join:
  assumes "introns_with_brain \<noteq> []"
    and "{''seqname'', ''start'', ''end''} \<subseteq> set (columns known_introns)"
  shows "merge known_introns introns_with_brain =
     Inr (filter (\<lambda>(k, m). seqname m = seqname k \<and> start m = start k \<and> end' m = end' k)
            (List.product (records known_introns) introns_with_brain))"
proof -
  from assms have "missing_key (columns known_introns)
      (DataFrame_columns matched_columns introns_with_brain) [''seqname'', ''start'', ''end''] = None"
    by (simp add: DataFrame_columns_def matched_columns_def)
  then show ?thesis
    by (simp add: merge_def concat_filter_product)
qed

lemma main_no_overlap:
  assumes s: "sorts_by_start sort_values"
  shows "main sort_values
     [exon_row ''chr1'' 1 100 ''+'' ''transcript_id \"T1\";'',
      exon_row ''chr1'' 201 300 ''+'' ''transcript_id \"T1\";'',
      exon_row ''chr1'' 401 500 ''+'' ''transcript_id \"T1\";'']
     [\<lparr>seqname = ''chr2'', start = 150, end' = 250, source = ''atlas'', feature = ''region'',
       score = ''.'', strand = ''+'', frame = ''.'', attribute = ''name \"cortex\";''\<rparr>]
     \<lparr>columns = [''seqname'', ''start'', ''end''],
      records = [\<lparr>seqname = ''chr1'', start = 101, end' = 200\<rparr>]\<rparr>
   = Inl (KeyError ''seqname'')"
proof -
  have introns: "extract_introns sort_values (new_frame
     [exon_row ''chr1'' 1 100 ''+'' ''transcript_id \"T1\";'',
      exon_row ''chr1'' 201 300 ''+'' ''transcript_id \"T1\";'',
      exon_row ''chr1'' 401 500 ''+'' ''transcript_id \"T1\";''])
   = Inr ((new_frame
     [exon_row ''chr1'' 1 100 ''+'' ''transcript_id \"T1\";'',
      exon_row ''chr1'' 201 300 ''+'' ''transcript_id \"T1\";'',
      exon_row ''chr1'' 401 500 ''+'' ''transcript_id \"T1\";''])
        \<lparr>col_attributes := Some [[(''transcript_id'', ''T1'')], [(''transcript_id'', ''T1'')],
                                   [(''transcript_id'', ''T1'')]],
         col_transcript_id := Some [''T1'', ''T1'', ''T1'']\<rparr>,
       [\<lparr>seqname = ''chr1'', start = 101, end' = 200, transcript_id = ''T1'', strand = ''+''\<rparr>,
        \<lparr>seqname = ''chr1'', start = 301, end' = 400, transcript_id = ''T1'', strand = ''+''\<rparr>])"
    by (simp add: eval_defs sorts_by_start_distinct [OF s])
  have filt: "filter (\<lambda>r. feature r = ''exon'')
     [exon_row ''chr1'' 1 100 ''+'' ''transcript_id \"T1\";'',
      exon_row ''chr1'' 201 300 ''+'' ''transcript_id \"T1\";'',
      exon_row ''chr1'' 401 500 ''+'' ''transcript_id \"T1\";'']
    = [exon_row ''chr1'' 1 100 ''+'' ''transcript_id \"T1\";'',
      exon_row ''chr1'' 201 300 ''+'' ''transcript_id \"T1\";'',
      exon_row ''chr1'' 401 500 ''+'' ''transcript_id \"T1\";'']"
    by (simp add: exon_row_def)
  show ?thesis
    unfolding main_def Let_def filt introns
    by (simp add: introns_in_brain_regions_def matching_def overlaps_def region_of_def merge_empty)
qed

text \<open>
  C4. The claim that the join succeeds with a smaller, possibly empty result does not
  hold of the code when no intron overlaps a region: the table built from the empty
  \<open>result\<close> has no column, and the join raises KeyError for seqname. Here the genome
  annotation has one transcript of three exons on chr1, the only region is on chr2, and
  the known intron is (chr1, 101, 200): no sort makes \<open>main\<close> return anything else.
\<close>

theorem main_no_overlap_raises:
  "sorts_by_start (sort_key start)
   \<and> \<not> (\<exists>sort_values. sorts_by_start sort_values \<and>
        main sort_values
          [exon_row ''chr1'' 1 100 ''+'' ''transcript_id \"T1\";'',
           exon_row ''chr1'' 201 300 ''+'' ''transcript_id \"T1\";'',
           exon_row ''chr1'' 401 500 ''+'' ''transcript_id \"T1\";'']
          [\<lparr>seqname = ''chr2'', start = 150, end' = 250, source = ''atlas'', feature = ''region'',
            score = ''.'', strand = ''+'', frame = ''.'', attribute = ''name \"cortex\";''\<rparr>]
          \<lparr>columns = [''seqname'', ''start'', ''end''],
           records = [\<lparr>seqname = ''chr1'', start = 101, end' = 200\<rparr>]\<rparr>
        \<noteq> Inl (KeyError ''seqname''))
   \<and> merge known_introns [] = Inl (KeyError ''seqname'')"
  using main_no_overlap by (auto simp: sorts_by_start_sort_key merge_empty)

text \<open>
  C6, as stated, fails. Whatever the conversion of the columns, \<open>read_gtf\<close> does not raise
  for a data line of three fields, nor for a line whose start and end fields are not
  integers. With a conversion that only turns the empty field into NaN, the line of three
  fields is read into a row whose six last columns are NaN.
\<close>

theorem read_gtf_short_line_counterexample:
  "\<not> (\<exists>convert. isl (read_gtf convert [[''chr1'', ''src'', ''exon'']]))
   \<and> \<not> (\<exists>convert. isl (read_gtf convert
          [[''chr1'', ''src'', ''exon'', ''abc'', ''2x0'', ''.'', ''+'', ''.'', ''transcript_id T1;'']]))
   \<and> read_gtf (map (\<lambda>field. if field = [] then None else Some field))
        [[''chr1'', ''src'', ''exon'']]
     = Inr [([], [(''seqname'', Some ''chr1''), (''source'', Some ''src''),
                  (''feature'', Some ''exon''), (''start'', None), (''end'', None),
                  (''score'', None), (''strand'', None), (''frame'', None),
                  (''attribute'', None)])]"
  by (simp add: read_gtf_def cols_def Let_def)

lemma map_nth_map_upt:
  "map (\<lambda>j. map F [0 ..< w] ! j ! n) [a ..< w] = map (\<lambda>j. F j ! n) [a ..< w]"
  by (rule map_cong) simp_all

lemma length_cols: "length cols = 9"
  by (simp add: cols_def)

lemma distinct_cols: "distinct cols"
  by (simp add: cols_def)

text \<open>
  C6, amended. When no data line has more than nine fields, \<open>read_gtf\<close> does not raise:
  it returns a table with one row per data line, each with the nine columns of \<open>cols\<close>
  and no index value, and a column for which the line has no field holds NaN. Nothing
  is checked of the fields that a line has: what a column holds for them is what the
  conversion of pandas makes of them.
\<close>

theorem read_gtf_pads:
  assumes "converts convert"
    and "list_all (\<lambda>fields. length fields \<le> 9) data_lines"
  shows "\<exists>table. read_gtf convert data_lines = Inr table \<and> length table = length data_lines \<and>
     (\<forall>n < length data_lines.
        fst (table ! n) = [] \<and>
        map fst (snd (table ! n)) = cols \<and>
        (\<forall>j < 9. length (data_lines ! n) \<le> j \<longrightarrow>
           map_of (snd (table ! n)) (cols ! j) = Some None))"
proof -
  let ?padded = "map (\<lambda>fields. fields @ replicate (9 - length fields) []) data_lines"
  let ?column = "\<lambda>j. convert (map (\<lambda>fields. fields ! j) ?padded)"
  let ?row = "\<lambda>n. ([] :: 'a option list, zip cols (map (\<lambda>j. ?column j ! n) [0 ..< 9]))"
  from assms(2) have le: "\<forall>fields \<in> set data_lines. length fields \<le> 9"
    by (simp add: list_all_iff)
  have width: "(case data_lines of [] \<Rightarrow> length cols
      | first # _ \<Rightarrow> max (length cols) (length first)) = 9"
    using le by (cases data_lines) (simp_all add: length_cols max_def)
  from le have "\<not> list_ex (\<lambda>fields. 9 < length fields) data_lines"
    by (fastforce simp: list_ex_iff)
  then have ok: "read_gtf convert data_lines = Inr (map ?row [0 ..< length data_lines])"
    by (simp add: read_gtf_def width Let_def length_cols map_nth_map_upt)
  have cell: "map_of (snd (?row n)) (cols ! j) = Some None"
    if n: "n < length data_lines" and j: "j < 9" and short: "length (data_lines ! n) \<le> j" for n j
  proof -
    let ?tokens = "map (\<lambda>fields. fields ! j) ?padded"
    from n le have len: "length (data_lines ! n) \<le> 9" by simp
    from n j short len have "?tokens ! n = []"
      by (simp add: nth_append)
    moreover from n have "n < length ?tokens" by simp
    ultimately have "convert ?tokens ! n = None"
      using assms(1) by (simp add: converts_def)
    moreover from j have "map_of (zip cols (map (\<lambda>j. ?column j ! n) [0 ..< 9])) (cols ! j)
        = Some (map (\<lambda>j. ?column j ! n) [0 ..< 9] ! j)"
      using distinct_cols by (simp add: map_of_zip_nth length_cols)
    ultimately show ?thesis using j by simp
  qed
  have keys: "map fst (snd (?row n)) = cols" for n
    by (simp add: length_cols)
  from ok cell keys show ?thesis by simp
qed

theorem read_gtf_pads_witness:
  "converts (map (\<lambda>field. if field = [] then None else Some field))
   \<and> list_all (\<lambda>fields. length fields \<le> 9) [[''chr1'', ''src'', ''exon'', ''abc'']]
   \<and> (\<exists>table. read_gtf (map (\<lambda>field. if field = [] then None else Some field))
          [[''chr1'', ''src'', ''exon'', ''abc'']] = Inr table \<and>
         length table = 1 \<and>
         map_of (snd (table ! 0)) ''end'' = Some None \<and>
         map_of (snd (table ! 0)) ''attribute'' = Some None)"
proof -
  let ?convert = "map (\<lambda>field. if field = [] then None else Some field)
    :: string list \<Rightarrow> string option list"
  let ?lines = "[[''chr1'', ''src'', ''exon'', ''abc'']]"
  have c: "converts ?convert" by (simp add: converts_def)
  have h: "list_all (\<lambda>fields. length fields \<le> 9) ?lines" by simp
  from read_gtf_pads [OF c h] obtain table where
    ok: "read_gtf ?convert ?lines = Inr table" and len: "length table = length ?lines" and
    cells: "\<forall>n < length ?lines.
        fst (table ! n) = [] \<and>
        map fst (snd (table ! n)) = cols \<and>
        (\<forall>j < 9. length (?lines ! n) \<le> j \<longrightarrow>
           map_of (snd (table ! n)) (cols ! j) = Some None)"
    by blast
  from cells have "\<forall>j < 9. length (?lines ! 0) \<le> j \<longrightarrow>
           map_of (snd (table ! 0)) (cols ! j) = Some None"
    by simp
  then have "map_of (snd (table ! 0)) (cols ! 4) = Some None"
    "map_of (snd (table ! 0)) (cols ! 8) = Some None"
    by simp_all
  then have "map_of (snd (table ! 0)) ''end'' = Some None"
    "map_of (snd (table ! 0)) ''attribute'' = Some None"
    by (simp_all add: cols_def)
  with c h ok len show ?thesis by simp
qed

end
